theory Spec2Isabelle
  imports Main "HOL-Library.Sublist"
begin

section \<open>Python strings\<close>

text \<open>
  A Python \<open>str\<close> is modelled as a \<open>string\<close>, a list of characters; a character stands for a
  code point below 256. \<open>str.startswith\<close> is \<open>prefix\<close>, \<open>len\<close> is \<open>length\<close> and
  \<open>c in s\<close> is \<open>c \<in> set s\<close>.
\<close>

definition is_space :: "char \<Rightarrow> bool" where
  \<comment> \<open>\<open>str.isspace\<close> on one code point below 256\<close>
  "is_space c = ((of_char c :: nat) \<in> set [9, 10, 11, 12, 13, 28, 29, 30, 31, 32, 133, 160])"

definition strip :: "string \<Rightarrow> string" where
  \<comment> \<open>\<open>text.strip()\<close>: whitespace removed at both ends\<close>
  "strip s = rev (dropWhile is_space (rev (dropWhile is_space s)))"

definition char_lower :: "char \<Rightarrow> char" where
  \<comment> \<open>\<open>str.lower\<close> on one code point below 256: A-Z and the Latin-1 capitals\<close>
  "char_lower c =
     (let n = (of_char c :: nat)
      in if (65 \<le> n \<and> n \<le> 90) \<or> (192 \<le> n \<and> n \<le> 222 \<and> n \<noteq> 215)
         then char_of (n + 32) else c)"

definition lower :: "string \<Rightarrow> string" where
  "lower s = map char_lower s"

function str_replace :: "string \<Rightarrow> string \<Rightarrow> string \<Rightarrow> string" where
  \<comment> \<open>\<open>s.replace(old, new)\<close>: every occurrence, left to right, without overlap\<close>
  "str_replace old new [] = (if old = [] then new else [])"
| "str_replace old new (c # cs) =
     (if old = [] then new @ c # str_replace old new cs
      else if prefix old (c # cs)
           then new @ str_replace old new (drop (length old) (c # cs))
           else c # str_replace old new cs)"
  by pat_completeness auto
termination
  by (relation "measure (\<lambda>(old, new, s). length s)") (auto simp: Suc_le_eq)

fun split_on :: "char \<Rightarrow> string \<Rightarrow> string list" where
  \<comment> \<open>\<open>s.split(sep)\<close> for a one-character separator: empty fields are kept\<close>
  "split_on sep [] = [[]]"
| "split_on sep (x # xs) =
     (if x = sep then [] # split_on sep xs
      else (case split_on sep xs of
              [] \<Rightarrow> [[x]]
            | h # t \<Rightarrow> (x # h) # t))"

fun split_first :: "char \<Rightarrow> string \<Rightarrow> (string \<times> string) option" where
  \<comment> \<open>\<open>s.split(sep, 1)\<close> when it has two fields: the text before and after the first \<open>sep\<close>\<close>
  "split_first sep [] = None"
| "split_first sep (x # xs) =
     (if x = sep then Some ([], xs)
      else (case split_first sep xs of
              None \<Rightarrow> None
            | Some (k, v) \<Rightarrow> Some (x # k, v)))"

definition dict_get :: "('k \<rightharpoonup> 'v) \<Rightarrow> 'k \<Rightarrow> 'v \<Rightarrow> 'v" where
  \<comment> \<open>\<open>d.get(key, default)\<close>\<close>
  "dict_get d k dflt = (case d k of None \<Rightarrow> dflt | Some v \<Rightarrow> v)"


section \<open>Exceptions, console output and the trace of a call\<close>

datatype exn =
    IndexError
  | ValueError
  | LibraryError string

type_synonym rgb = "nat \<times> nat \<times> nat"

type_synonym image = "rgb list list"

datatype msg =
    MsgTerminal string
  | MsgSvgSaved string
  | MsgPngSaved string
  | MsgFilesSaved
  | MsgSvgPath string
  | MsgPngPath string
  | MsgErrorGenerating exn
  | MsgErrorColored exn
  | MsgWifiGenerating
  | MsgSsid string
  | MsgSecurity string
  | MsgHidden bool
  | MsgFileNotFound string
  | MsgScanning
  | MsgNoQrFound
  | MsgDecoded
  | MsgContent string
  | MsgType string
  | MsgUrlDetected
  | MsgPhoneDetected
  | MsgEmailDetected
  | MsgErrorReading exn
  | MsgWifiDetected
  | MsgWifiSsid string
  | MsgWifiPassword string
  | MsgWifiSecurity string
  | MsgWifiHidden string
  | MsgWifiWarning exn

datatype call =
    Create string
  | Terminal
  | Svg nat
  | WriteFile string string
  | Png string nat
  | Save image string
  | Open string
  | Decode
  | Utf8

datatype event =
    Print msg
  | Ext call "exn option"

text \<open>
  A call of the program yields a value or a raised exception, and the trace of what it
  printed and which library and file-system calls it made (with the exception each raised,
  if any). \<open>print\<close> itself is taken not to fail.
\<close>

type_synonym 'a io = "(exn + 'a) \<times> event list"

definition ret :: "'a \<Rightarrow> 'a io" where
  "ret a = (Inr a, [])"

definition raise :: "exn \<Rightarrow> 'a io" where
  "raise e = (Inl e, [])"

definition bind :: "'a io \<Rightarrow> ('a \<Rightarrow> 'b io) \<Rightarrow> 'b io" where
  "bind m f =
     (case m of
        (Inl e, t) \<Rightarrow> (Inl e, t)
      | (Inr a, t) \<Rightarrow> (case f a of (r, t') \<Rightarrow> (r, t @ t')))"

definition try_except :: "'a io \<Rightarrow> (exn \<Rightarrow> 'a io) \<Rightarrow> 'a io" where
  \<comment> \<open>\<open>try: m except Exception as e: h e\<close>\<close>
  "try_except m h =
     (case m of
        (Inl e, t) \<Rightarrow> (case h e of (r, t') \<Rightarrow> (r, t @ t'))
      | (Inr a, t) \<Rightarrow> (Inr a, t))"

definition print :: "msg \<Rightarrow> unit io" where
  "print m = (Inr (), [Print m])"

definition ext :: "call \<Rightarrow> exn + 'a \<Rightarrow> 'a io" where
  \<comment> \<open>an external call with the outcome the environment gives it\<close>
  "ext c r = (r, [Ext c (case r of Inl e \<Rightarrow> Some e | Inr _ \<Rightarrow> None)])"

definition ext_unit :: "call \<Rightarrow> exn option \<Rightarrow> unit io" where
  "ext_unit c r = ((case r of None \<Rightarrow> Inr () | Some e \<Rightarrow> Inl e), [Ext c r])"


section \<open>WiFi payload\<close>

definition wifi_string :: "string \<Rightarrow> string \<Rightarrow> string \<Rightarrow> bool \<Rightarrow> string" where
  \<comment> \<open>\<open>generate_wifi_qr\<close>, the payload it builds\<close>
  "wifi_string ssid password security hidden =
     (let hidden_flag = (if hidden then ''true'' else ''false'')
      in ''WIFI:T:'' @ security @ '';S:'' @ ssid @ '';P:'' @ password
           @ '';H:'' @ hidden_flag @ '';;'')"

fun wifi_parts :: "string list \<Rightarrow> (string \<rightharpoonup> string) \<Rightarrow> exn + (string \<rightharpoonup> string)" where
  \<comment> \<open>the \<open>for part in parts\<close> loop of \<open>parse_wifi_qr\<close>; unpacking fewer than two fields
      raises \<open>ValueError\<close>\<close>
  "wifi_parts [] wifi_info = Inr wifi_info"
| "wifi_parts (part # parts) wifi_info =
     (if CHR '':'' \<in> set part
      then (case split_first CHR '':'' part of
              None \<Rightarrow> Inl ValueError
            | Some (key, val) \<Rightarrow> wifi_parts parts (wifi_info(key \<mapsto> val)))
      else wifi_parts parts wifi_info)"

definition wifi_info :: "string \<Rightarrow> exn + (string \<rightharpoonup> string)" where
  \<comment> \<open>\<open>parse_wifi_qr\<close>, the dictionary it builds from the payload\<close>
  "wifi_info wifi_str =
     (let parts = split_on CHR '';'' (str_replace ''WIFI:'' [] wifi_str)
      in wifi_parts parts Map.empty)"

definition parse_wifi_qr :: "string \<Rightarrow> unit io" where
  "parse_wifi_qr wifi_str =
     try_except
       (bind (case wifi_info wifi_str of Inl e \<Rightarrow> raise e | Inr d \<Rightarrow> ret d) (\<lambda>d.
        bind (print MsgWifiDetected) (\<lambda>_.
        bind (print (MsgWifiSsid (dict_get d ''S'' ''N/A''))) (\<lambda>_.
        bind (print (MsgWifiPassword (dict_get d ''P'' ''N/A''))) (\<lambda>_.
        bind (print (MsgWifiSecurity (dict_get d ''T'' ''N/A''))) (\<lambda>_.
        print (MsgWifiHidden (dict_get d ''H'' ''false''))))))))
       (\<lambda>e. print (MsgWifiWarning e))"


section \<open>Input validation\<close>

definition validate_input :: "string \<Rightarrow> bool \<times> string" where
  "validate_input text =
     (if text = [] \<or> strip text = [] then (False, ''Input text cannot be empty'')
      else if length text > 2953 then (False, ''Input text is too long for QR code'')
      else (True, ''Valid''))"


section \<open>Colors\<close>

definition color_map :: "(string \<times> rgb) list" where
  "color_map =
     [(''black'', (0, 0, 0)),
      (''white'', (255, 255, 255)),
      (''red'', (255, 0, 0)),
      (''green'', (0, 255, 0)),
      (''blue'', (0, 0, 255)),
      (''yellow'', (255, 255, 0)),
      (''purple'', (128, 0, 128)),
      (''orange'', (255, 165, 0)),
      (''pink'', (255, 192, 203)),
      (''cyan'', (0, 255, 255)),
      (''navy'', (0, 0, 128)),
      (''darkgreen'', (0, 100, 0))]"

definition fg_rgb :: "string \<Rightarrow> rgb" where
  \<comment> \<open>\<open>color_map.get(fg_color.lower(), (0, 0, 0))\<close>\<close>
  "fg_rgb fg_color = dict_get (map_of color_map) (lower fg_color) (0, 0, 0)"

definition bg_rgb :: "string \<Rightarrow> rgb" where
  \<comment> \<open>\<open>color_map.get(bg_color.lower(), (255, 255, 255))\<close>\<close>
  "bg_rgb bg_color = dict_get (map_of color_map) (lower bg_color) (255, 255, 255)"


section \<open>Raster images\<close>

text \<open>
  An image is its rows of pixels, top to bottom. \<open>Image.new\<close> fills it with one color;
  \<open>ImageDraw.rectangle([x1, y1, x2, y2], fill)\<close> paints the box with both end points
  included, as the imaging library documents it, clipped to the image.
\<close>

definition image_new :: "nat \<Rightarrow> nat \<Rightarrow> rgb \<Rightarrow> image" where
  "image_new w h color = replicate h (replicate w color)"

definition rectangle :: "image \<Rightarrow> nat \<Rightarrow> nat \<Rightarrow> nat \<Rightarrow> nat \<Rightarrow> rgb \<Rightarrow> image" where
  "rectangle img x1 y1 x2 y2 fill =
     map (\<lambda>(y, row).
            map (\<lambda>(x, p). if x1 \<le> x \<and> x \<le> x2 \<and> y1 \<le> y \<and> y \<le> y2 then fill else p)
                (enumerate 0 row))
         (enumerate 0 img)"

definition getpixel :: "image \<Rightarrow> nat \<times> nat \<Rightarrow> rgb option" where
  \<comment> \<open>the pixel at \<open>(x, y)\<close>, if the image has one there\<close>
  "getpixel img xy =
     (case xy of (x, y) \<Rightarrow>
        if y < length img \<and> x < length (img ! y) then Some (img ! y ! x) else None)"

definition covers :: "nat \<Rightarrow> nat \<Rightarrow> nat \<Rightarrow> nat \<times> nat \<Rightarrow> bool" where
  \<comment> \<open>the pixel lies in the box that the loop paints for the module at \<open>(row, col)\<close>\<close>
  "covers scale row col xy =
     (case xy of (x, y) \<Rightarrow>
        col * scale \<le> x \<and> x \<le> col * scale + scale \<and> row * scale \<le> y \<and> y \<le> row * scale + scale)"

definition paint :: "bool \<Rightarrow> rgb \<Rightarrow> rgb option \<Rightarrow> rgb option" where
  \<comment> \<open>a pixel, if there is one, after a box that holds it (or not) has been filled\<close>
  "paint b fill p = (case p of None \<Rightarrow> None | Some c \<Rightarrow> Some (if b then fill else c))"

definition module_at :: "bool list list \<Rightarrow> nat \<Rightarrow> nat \<Rightarrow> exn + bool" where
  \<comment> \<open>\<open>modules[row][col]\<close>\<close>
  "module_at modules row col =
     (if row < length modules \<and> col < length (modules ! row)
      then Inr (modules ! row ! col) else Inl IndexError)"

fun draw_cols :: "bool list list \<Rightarrow> rgb \<Rightarrow> nat \<Rightarrow> nat \<Rightarrow> nat list \<Rightarrow> image \<Rightarrow> exn + image" where
  \<comment> \<open>\<open>for col in range(module_count)\<close>\<close>
  "draw_cols modules fill scale row [] img = Inr img"
| "draw_cols modules fill scale row (col # cols) img =
     (case module_at modules row col of
        Inl e \<Rightarrow> Inl e
      | Inr dark \<Rightarrow>
          if dark
          then (let x1 = col * scale; y1 = row * scale; x2 = x1 + scale; y2 = y1 + scale
                in draw_cols modules fill scale row cols (rectangle img x1 y1 x2 y2 fill))
          else draw_cols modules fill scale row cols img)"

fun draw_rows :: "bool list list \<Rightarrow> rgb \<Rightarrow> nat \<Rightarrow> nat list \<Rightarrow> nat list \<Rightarrow> image \<Rightarrow> exn + image" where
  \<comment> \<open>\<open>for row in range(module_count)\<close>\<close>
  "draw_rows modules fill scale [] cols img = Inr img"
| "draw_rows modules fill scale (row # rows) cols img =
     (case draw_cols modules fill scale row cols img of
        Inl e \<Rightarrow> Inl e
      | Inr img' \<Rightarrow> draw_rows modules fill scale rows cols img')"

definition render_modules :: "bool list list \<Rightarrow> rgb \<Rightarrow> rgb \<Rightarrow> exn + image" where
  \<comment> \<open>\<open>generate_colored_qr\<close>, from the matrix to the image it saves\<close>
  "render_modules modules fg bg =
     (let module_count = length modules;
          scale = 10;
          img_size = module_count * scale;
          img = image_new img_size img_size bg
      in draw_rows modules fg scale [0..<module_count] [0..<module_count] img)"

fun first_dark_in_row :: "bool list \<Rightarrow> nat \<Rightarrow> nat option" where
  "first_dark_in_row [] col = None"
| "first_dark_in_row (m # ms) col = (if m then Some col else first_dark_in_row ms (Suc col))"

fun first_dark_from :: "bool list list \<Rightarrow> nat \<Rightarrow> (nat \<times> nat) option" where
  \<comment> \<open>the first dark module in the order the loops visit them, as \<open>(row, col)\<close>\<close>
  "first_dark_from [] row = None"
| "first_dark_from (r # rs) row =
     (case first_dark_in_row r 0 of
        Some col \<Rightarrow> Some (row, col)
      | None \<Rightarrow> first_dark_from rs (Suc row))"

definition first_dark :: "bool list list \<Rightarrow> (nat \<times> nat) option" where
  "first_dark modules = first_dark_from modules 0"


section \<open>The environment\<close>

text \<open>
  The encoder, the decoder, the imaging library and the file system are outside the
  program. Each call of the program makes each of their calls at most once, so the
  environment of one call is the outcome of each: a value, or the exception raised.
\<close>

record qr_code =
  data :: string
  code :: "bool list list"

record decoded =
  dec_data :: string
  dec_type :: string

record env =
  qr_create :: "string \<Rightarrow> exn + qr_code"
  qr_terminal :: "qr_code \<Rightarrow> exn + string"
  qr_svg :: "qr_code \<Rightarrow> nat \<Rightarrow> exn + string"
  qr_png :: "qr_code \<Rightarrow> string \<Rightarrow> nat \<Rightarrow> exn option"
  file_write :: "string \<Rightarrow> string \<Rightarrow> exn option"
  img_save :: "image \<Rightarrow> string \<Rightarrow> exn option"
  path_exists :: "string \<Rightarrow> bool"
  image_open :: "string \<Rightarrow> exn + image"
  zbar_decode :: "image \<Rightarrow> exn + decoded list"
  utf8_decode :: "string \<Rightarrow> exn + string"
  now_stamp :: string


section \<open>Generation\<close>

definition generate_colored_qr :: "env \<Rightarrow> qr_code \<Rightarrow> string \<Rightarrow> string \<Rightarrow> string \<Rightarrow> unit io" where
  "generate_colored_qr env qr output_path fg_color bg_color =
     try_except
       (bind (case render_modules (code qr) (fg_rgb fg_color) (bg_rgb bg_color) of
                Inl e \<Rightarrow> raise e
              | Inr img \<Rightarrow> ret img) (\<lambda>img.
        ext_unit (Save img output_path) (img_save env img output_path)))
       (\<lambda>e. bind (print (MsgErrorColored e)) (\<lambda>_.
             ext_unit (Png output_path 10) (qr_png env qr output_path 10)))"

definition generate_qr :: "env \<Rightarrow> string \<Rightarrow> string \<Rightarrow> string \<Rightarrow> string \<Rightarrow> string \<Rightarrow> bool io" where
  "generate_qr env raw_text file_name output_format fg_color bg_color =
     try_except
       (bind (ext (Create raw_text) (qr_create env raw_text)) (\<lambda>qr.
        bind (ext Terminal (qr_terminal env qr)) (\<lambda>term.
        bind (print (MsgTerminal term)) (\<lambda>_.
        bind
          (if lower output_format = ''svg'' then
             bind (ext (Svg 10) (qr_svg env qr 10)) (\<lambda>svg_buffer.
             let svg_path = ''qrcodes/'' @ file_name @ ''.svg'' in
             bind (ext_unit (WriteFile svg_path svg_buffer) (file_write env svg_path svg_buffer)) (\<lambda>_.
             print (MsgSvgSaved svg_path)))
           else if lower output_format = ''png'' then
             (let png_path = ''qrcodes/'' @ file_name @ ''.png'' in
              bind
                (if fg_color = ''black'' \<and> bg_color = ''white''
                 then ext_unit (Png png_path 10) (qr_png env qr png_path 10)
                 else generate_colored_qr env qr png_path fg_color bg_color) (\<lambda>_.
              print (MsgPngSaved png_path)))
           else if lower output_format = ''both'' then
             (let svg_path = ''qrcodes/'' @ file_name @ ''.svg'';
                  png_path = ''qrcodes/'' @ file_name @ ''.png'' in
              bind (ext (Svg 10) (qr_svg env qr 10)) (\<lambda>svg_buffer.
              bind (ext_unit (WriteFile svg_path svg_buffer) (file_write env svg_path svg_buffer)) (\<lambda>_.
              bind
                (if fg_color = ''black'' \<and> bg_color = ''white''
                 then ext_unit (Png png_path 10) (qr_png env qr png_path 10)
                 else generate_colored_qr env qr png_path fg_color bg_color) (\<lambda>_.
              bind (print MsgFilesSaved) (\<lambda>_.
              bind (print (MsgSvgPath svg_path)) (\<lambda>_.
              print (MsgPngPath png_path)))))))
           else ret ()) (\<lambda>_.
        ret True)))))
       (\<lambda>e. bind (print (MsgErrorGenerating e)) (\<lambda>_. ret False))"

definition generate_qr_defaults :: "env \<Rightarrow> string \<Rightarrow> string \<Rightarrow> bool io" where
  \<comment> \<open>\<open>generate_qr(raw_text, file_name)\<close>: the other arguments take the defaults of the
      signature, \<open>output_format='png', fg_color='black', bg_color='white'\<close>\<close>
  "generate_qr_defaults env raw_text file_name =
     generate_qr env raw_text file_name ''png'' ''black'' ''white''"

definition generate_wifi_qr :: "env \<Rightarrow> string \<Rightarrow> string \<Rightarrow> string \<Rightarrow> bool \<Rightarrow> string \<Rightarrow> bool io" where
  "generate_wifi_qr env ssid password security hidden file_name =
     (let file_name' = (if file_name = [] then ''wifi_'' @ ssid @ ''_'' @ now_stamp env
                        else file_name);
          wifi_str = wifi_string ssid password security hidden
      in bind (print MsgWifiGenerating) (\<lambda>_.
         bind (print (MsgSsid ssid)) (\<lambda>_.
         bind (print (MsgSecurity security)) (\<lambda>_.
         bind (print (MsgHidden hidden)) (\<lambda>_.
         generate_qr_defaults env wifi_str file_name')))))"


section \<open>Decoding\<close>

definition classify :: "string \<Rightarrow> unit io" where
  \<comment> \<open>the \<open>if/elif\<close> chain of \<open>read_qr\<close> on the decoded text\<close>
  "classify decoded_text =
     (if prefix ''WIFI:'' decoded_text then parse_wifi_qr decoded_text
      else if prefix ''http'' decoded_text then print MsgUrlDetected
      else if prefix ''tel:'' decoded_text then print MsgPhoneDetected
      else if prefix ''mailto:'' decoded_text then print MsgEmailDetected
      else ret ())"



section \<open>Reading a trace\<close>

fun ext_calls :: "event list \<Rightarrow> call list" where
  \<comment> \<open>the external calls of a trace, in order\<close>
  "ext_calls [] = []"
| "ext_calls (Print m # t) = ext_calls t"
| "ext_calls (Ext c r # t) = c # ext_calls t"

fun raised :: "event list \<Rightarrow> (call \<times> exn) list" where
  \<comment> \<open>the external calls of a trace that raised, with the exception\<close>
  "raised [] = []"
| "raised (Print m # t) = raised t"
| "raised (Ext c None # t) = raised t"
| "raised (Ext c (Some e) # t) = (c, e) # raised t"

fun is_raster :: "call \<Rightarrow> bool" where
  \<comment> \<open>the calls that write a raster image: the built-in writer and the saving of a drawn image\<close>
  "is_raster (Png path scale) = True"
| "is_raster (Save img path) = True"
| "is_raster c = False"

definition raster_calls :: "event list \<Rightarrow> call list" where
  "raster_calls t = filter is_raster (ext_calls t)"


section \<open>A version-1 matrix and an environment to run the model on\<close>

definition finder_rows :: "bool list list" where
  \<comment> \<open>the seven rows of a finder pattern\<close>
  "finder_rows =
     [[True, True, True, True, True, True, True],
      [True, False, False, False, False, False, True],
      [True, False, True, True, True, False, True],
      [True, False, True, True, True, False, True],
      [True, False, True, True, True, False, True],
      [True, False, False, False, False, False, True],
      [True, True, True, True, True, True, True]]"

definition finder_matrix :: "bool list list" where
  \<comment> \<open>21 by 21 modules: the three finder patterns of a version-1 symbol, the rest light\<close>
  "finder_matrix =
     map (\<lambda>r. r @ replicate 7 False @ r) finder_rows
     @ replicate 7 (replicate 21 False)
     @ map (\<lambda>r. r @ replicate 14 False) finder_rows"

definition disk_full_env :: env where
  \<comment> \<open>the encoder and its writers succeed and files can be written; the imaging library
      cannot save an image; no path exists to read from\<close>
  "disk_full_env =
     \<lparr> qr_create = (\<lambda>text. Inr \<lparr> data = text, code = finder_matrix \<rparr>),
       qr_terminal = (\<lambda>qr. Inr []),
       qr_svg = (\<lambda>qr scale. Inr ''<svg/>''),
       qr_png = (\<lambda>qr path scale. None),
       file_write = (\<lambda>path buf. None),
       img_save = (\<lambda>img path. Some (LibraryError ''No space left on device'')),
       path_exists = (\<lambda>path. False),
       image_open = (\<lambda>path. Inl (LibraryError ''cannot identify image file'')),
       zbar_decode = (\<lambda>img. Inr []),
       utf8_decode = (\<lambda>bytes. Inr bytes),
       now_stamp = ''20250101_120000'' \<rparr>"

definition strict_encoder_env :: env where
  \<comment> \<open>as before, with an encoder that refuses a text longer than 2953 characters\<close>
  "strict_encoder_env =
     disk_full_env
       \<lparr> qr_create := (\<lambda>text. if length text > 2953
                               then Inl (LibraryError ''Data can not be encoded, too large'')
                               else Inr \<lparr> data = text, code = finder_matrix \<rparr>) \<rparr>"


section \<open>Properties of the WiFi payload\<close>

lemma not_prefix_before_sep:
  assumes "old \<noteq> []" "last old \<notin> set xs" "sep \<notin> set old"
  shows "\<not> prefix old (xs @ sep # ys)"
proof
  assume "prefix old (xs @ sep # ys)"
  then consider "prefix old xs" | us where "old = xs @ us" "prefix us (sep # ys)"
    by (auto simp: prefix_append)
  then show False
  proof cases
    case 1
    then have "set old \<subseteq> set xs" by (rule set_mono_prefix)
    with assms(1,2) show False using last_in_set by blast
  next
    case 2
    show False
    proof (cases us)
      case Nil
      with 2 assms(1,2) show False using last_in_set by auto
    next
      case (Cons u us')
      with 2 have "u = sep" by simp
      with 2 Cons assms(3) show False by simp
    qed
  qed
qed

lemma str_replace_before_sep:
  assumes "old \<noteq> []" "last old \<notin> set xs" "sep \<notin> set old"
  shows "str_replace old new (xs @ sep # ys) = xs @ sep # str_replace old new ys"
  using assms
proof (induction xs)
  case Nil
  then have "\<not> prefix old (sep # ys)"
    using not_prefix_before_sep[of old "[]" sep ys] by simp
  with Nil show ?case by simp
next
  case (Cons x xs)
  then have "\<not> prefix old ((x # xs) @ sep # ys)"
    using not_prefix_before_sep[of old "x # xs" sep ys] by blast
  with Cons show ?case by simp
qed

lemma split_on_before_sep:
  "sep \<notin> set xs \<Longrightarrow> split_on sep (xs @ sep # ys) = xs # split_on sep ys"
  by (induction xs) auto

lemma split_first_Cons:
  "sep \<notin> set k \<Longrightarrow> split_first sep (k @ sep # v) = Some (k, v)"
  by (induction k) auto

lemma str_replace_payload:
  assumes "CHR '':'' \<notin> set security" "CHR '':'' \<notin> set ssid" "CHR '':'' \<notin> set password"
  shows "str_replace ''WIFI:'' [] (wifi_string ssid password security hidden)
         = ''T:'' @ security @ '';S:'' @ ssid @ '';P:'' @ password
             @ '';H:'' @ (if hidden then ''true'' else ''false'') @ '';;''"
proof -
  let ?r = "str_replace ''WIFI:'' []"
  have sep: "\<And>xs ys. CHR '':'' \<notin> set xs \<Longrightarrow> ?r (xs @ CHR '';'' # ys) = xs @ CHR '';'' # ?r ys"
    by (rule str_replace_before_sep) simp_all
  have key: "\<And>k ys. k \<noteq> CHR ''W'' \<Longrightarrow> ?r (k # CHR '':'' # ys) = k # CHR '':'' # ?r ys"
    by simp
  have tail: "?r ((if hidden then ''true'' else ''false'') @ '';;'') = (if hidden then ''true'' else ''false'') @ '';;''"
    by simp
  have "?r (wifi_string ssid password security hidden)
        = ?r (''T:'' @ security @ '';S:'' @ ssid @ '';P:'' @ password
             @ '';H:'' @ (if hidden then ''true'' else ''false'') @ '';;'')"
    by (simp add: wifi_string_def)
  also have "\<dots> = ''T:'' @ ?r (security @ CHR '';'' # ''S:'' @ ssid @ '';P:'' @ password
             @ '';H:'' @ (if hidden then ''true'' else ''false'') @ '';;'')"
    using key[of "CHR ''T''"] by simp
  also have "\<dots> = ''T:'' @ security @ '';'' @ ?r (''S:'' @ ssid @ CHR '';'' # ''P:'' @ password
             @ '';H:'' @ (if hidden then ''true'' else ''false'') @ '';;'')"
    using sep[OF assms(1)] by simp
  also have "\<dots> = ''T:'' @ security @ '';S:'' @ ?r (ssid @ CHR '';'' # ''P:'' @ password
             @ '';H:'' @ (if hidden then ''true'' else ''false'') @ '';;'')"
    using key[of "CHR ''S''"] by simp
  also have "\<dots> = ''T:'' @ security @ '';S:'' @ ssid @ '';'' @ ?r (''P:'' @ password @ CHR '';'' #
             ''H:'' @ (if hidden then ''true'' else ''false'') @ '';;'')"
    using sep[OF assms(2)] by simp
  also have "\<dots> = ''T:'' @ security @ '';S:'' @ ssid @ '';P:'' @ ?r (password @ CHR '';'' #
             ''H:'' @ (if hidden then ''true'' else ''false'') @ '';;'')"
    using key[of "CHR ''P''"] by simp
  also have "\<dots> = ''T:'' @ security @ '';S:'' @ ssid @ '';P:'' @ password @ '';'' @
             ?r (''H:'' @ (if hidden then ''true'' else ''false'') @ '';;'')"
    using sep[OF assms(3)] by simp
  also have "\<dots> = ''T:'' @ security @ '';S:'' @ ssid @ '';P:'' @ password @ '';H:'' @
             ?r ((if hidden then ''true'' else ''false'') @ '';;'')"
    using key[of "CHR ''H''"] by simp
  also have "\<dots> = ''T:'' @ security @ '';S:'' @ ssid @ '';P:'' @ password @ '';H:'' @
             (if hidden then ''true'' else ''false'') @ '';;''"
    using tail by simp
  finally show ?thesis .
qed

lemma split_payload:
  assumes "CHR '';'' \<notin> set security" "CHR '';'' \<notin> set ssid" "CHR '';'' \<notin> set password"
  shows "split_on CHR '';'' (''T:'' @ security @ '';S:'' @ ssid @ '';P:'' @ password
             @ '';H:'' @ (if hidden then ''true'' else ''false'') @ '';;'')
         = [''T:'' @ security, ''S:'' @ ssid, ''P:'' @ password,
            ''H:'' @ (if hidden then ''true'' else ''false''), [], []]"
proof -
  let ?h = "if hidden then ''true'' else ''false''"
  have 1: "split_on CHR '';'' ((''T:'' @ security) @ CHR '';'' # (''S:'' @ ssid @ '';P:'' @ password @ '';H:'' @ ?h @ '';;''))
        = (''T:'' @ security) # split_on CHR '';'' (''S:'' @ ssid @ '';P:'' @ password @ '';H:'' @ ?h @ '';;'')"
    using assms(1) by (intro split_on_before_sep) simp
  have 2: "split_on CHR '';'' ((''S:'' @ ssid) @ CHR '';'' # (''P:'' @ password @ '';H:'' @ ?h @ '';;''))
        = (''S:'' @ ssid) # split_on CHR '';'' (''P:'' @ password @ '';H:'' @ ?h @ '';;'')"
    using assms(2) by (intro split_on_before_sep) simp
  have 3: "split_on CHR '';'' ((''P:'' @ password) @ CHR '';'' # (''H:'' @ ?h @ '';;''))
        = (''P:'' @ password) # split_on CHR '';'' (''H:'' @ ?h @ '';;'')"
    using assms(3) by (intro split_on_before_sep) simp
  have 4: "split_on CHR '';'' (''H:'' @ ?h @ '';;'') = [''H:'' @ ?h, [], []]"
    by simp
  from 1 2 3 4 show ?thesis by simp
qed

lemma wifi_info_payload:
  assumes "CHR '':'' \<notin> set security" "CHR '':'' \<notin> set ssid" "CHR '':'' \<notin> set password"
    and "CHR '';'' \<notin> set security" "CHR '';'' \<notin> set ssid" "CHR '';'' \<notin> set password"
  shows "wifi_info (wifi_string ssid password security hidden)
         = Inr [''T'' \<mapsto> security, ''S'' \<mapsto> ssid, ''P'' \<mapsto> password,
                ''H'' \<mapsto> (if hidden then ''true'' else ''false'')]"
  unfolding wifi_info_def Let_def str_replace_payload[OF assms(1-3)] split_payload[OF assms(4-6)]
  by simp


text \<open>
  C1. Round trip of the WiFi payload: when neither the SSID nor the password contains
  \<open>;\<close> or \<open>:\<close>, the security is one of WPA, WEP and nopass, and whatever the hidden flag
  is, the dictionary that \<open>parse_wifi_qr\<close> builds from the payload of \<open>generate_wifi_qr\<close>
  holds exactly the four keys T, S, P and H, mapped to the security, the SSID, the
  password and the text \<open>true\<close> or \<open>false\<close> of the flag; no exception is raised.
\<close>

theorem wifi_round_trip:
  assumes "CHR '';'' \<notin> set ssid" and "CHR '':'' \<notin> set ssid"
    and "CHR '';'' \<notin> set password" and "CHR '':'' \<notin> set password"
    and "security \<in> {''WPA'', ''WEP'', ''nopass''}"
  shows "wifi_info (wifi_string ssid password security hidden)
         = Inr [''T'' \<mapsto> security, ''S'' \<mapsto> ssid, ''P'' \<mapsto> password,
                ''H'' \<mapsto> (if hidden then ''true'' else ''false'')]"
proof -
  from assms(5) have "CHR '':'' \<notin> set security" and "CHR '';'' \<notin> set security"
    by auto
  with assms(1-4) show ?thesis
    by (intro wifi_info_payload)
qed

theorem wifi_round_trip_witness:
  "CHR '';'' \<notin> set ''HomeNet'' \<and> CHR '':'' \<notin> set ''HomeNet''
   \<and> CHR '';'' \<notin> set ''secret123'' \<and> CHR '':'' \<notin> set ''secret123''
   \<and> ''WPA'' \<in> {''WPA'', ''WEP'', ''nopass''}
   \<and> wifi_info (wifi_string ''HomeNet'' ''secret123'' ''WPA'' False)
       = Inr [''T'' \<mapsto> ''WPA'', ''S'' \<mapsto> ''HomeNet'', ''P'' \<mapsto> ''secret123'',
              ''H'' \<mapsto> ''false'']"
  using wifi_round_trip [of "''HomeNet''" "''secret123''" "''WPA''" False]
  by simp

text \<open>
  C2. The claim has the decoder remove only a leading \<open>WIFI:\<close> and leave the rest of the
  payload untouched. \<open>parse_wifi_qr\<close> removes every occurrence: for the password
  \<open>myWIFI:pw\<close> the payload built by \<open>generate_wifi_qr\<close> decodes to the password \<open>mypw\<close>.
\<close>

theorem wifi_info_removes_inner_occurrence:
  "wifi_string ''net'' ''myWIFI:pw'' ''WPA'' False = ''WIFI:T:WPA;S:net;P:myWIFI:pw;H:false;;''
   \<and> wifi_info ''WIFI:T:WPA;S:net;P:myWIFI:pw;H:false;;''
       = Inr [''T'' \<mapsto> ''WPA'', ''S'' \<mapsto> ''net'', ''P'' \<mapsto> ''mypw'', ''H'' \<mapsto> ''false'']"
  by (simp add: wifi_string_def wifi_info_def)


section \<open>Properties of the input validation\<close>

lemma strip_empty_iff: "strip s = [] \<longleftrightarrow> (\<forall>c\<in>set s. is_space c)"
proof -
  have "strip s = [] \<longleftrightarrow> dropWhile is_space (rev (dropWhile is_space s)) = []"
    by (simp add: strip_def)
  also have "\<dots> \<longleftrightarrow> (\<forall>c\<in>set (dropWhile is_space s). is_space c)"
    by (simp add: dropWhile_eq_Nil_conv)
  also have "\<dots> \<longleftrightarrow> (\<forall>c\<in>set s. is_space c)"
  proof
    assume a: "\<forall>c\<in>set (dropWhile is_space s). is_space c"
    show "\<forall>c\<in>set s. is_space c"
    proof (cases "dropWhile is_space s")
      case Nil
      then show ?thesis by (simp add: dropWhile_eq_Nil_conv)
    next
      case (Cons x xs)
      then have "\<not> is_space x" using hd_dropWhile[of is_space s] by auto
      moreover have "x \<in> set (dropWhile is_space s)" using Cons by simp
      ultimately show ?thesis using a by blast
    qed
  next
    assume "\<forall>c\<in>set s. is_space c"
    then show "\<forall>c\<in>set (dropWhile is_space s). is_space c"
      using set_dropWhileD by fastforce
  qed
  finally show ?thesis .
qed

text \<open>
  C8. \<open>validate_input\<close> rejects the empty text, a text of three spaces, every text made of
  whitespace only and every text longer than 2953 characters; it accepts \<open>hello\<close>, and
  every text of at most 2953 characters that is not empty once stripped. It accepts a
  text exactly when the text has a character that is not whitespace and at most 2953
  characters.
\<close>

theorem validate_input_spec:
  "fst (validate_input '''') = False
   \<and> fst (validate_input ''   '') = False
   \<and> (\<forall>text. length text > 2953 \<longrightarrow> fst (validate_input text) = False)
   \<and> fst (validate_input ''hello'') = True
   \<and> (\<forall>text. strip text \<noteq> [] \<and> length text \<le> 2953
        \<longrightarrow> validate_input text = (True, ''Valid''))
   \<and> (\<forall>text. (\<forall>c\<in>set text. is_space c)
        \<longrightarrow> validate_input text = (False, ''Input text cannot be empty''))
   \<and> (\<forall>text. fst (validate_input text) = True
        \<longleftrightarrow> (\<exists>c\<in>set text. \<not> is_space c) \<and> length text \<le> 2953)"
proof -
  have a: "fst (validate_input '''') = False" by (simp add: validate_input_def)
  have b: "fst (validate_input ''   '') = False"
    by (simp add: validate_input_def strip_empty_iff is_space_def)
  have c: "\<forall>text. length text > 2953 \<longrightarrow> fst (validate_input text) = False"
    by (simp add: validate_input_def)
  have d: "fst (validate_input ''hello'') = True"
    by (simp add: validate_input_def strip_empty_iff is_space_def)
  have e: "\<forall>text. strip text \<noteq> [] \<and> length text \<le> 2953
             \<longrightarrow> validate_input text = (True, ''Valid'')"
    by (auto simp: validate_input_def strip_def)
  have f: "\<forall>text. (\<forall>c\<in>set text. is_space c)
             \<longrightarrow> validate_input text = (False, ''Input text cannot be empty'')"
    by (simp add: validate_input_def strip_empty_iff)
  have g: "\<forall>text. fst (validate_input text) = True
             \<longleftrightarrow> (\<exists>c\<in>set text. \<not> is_space c) \<and> length text \<le> 2953"
    by (auto simp: validate_input_def strip_empty_iff)
  from a b c d e f g show ?thesis by blast
qed

theorem validate_input_spec_witness:
  "length (replicate 2954 CHR ''a'') > 2953
   \<and> fst (validate_input (replicate 2954 CHR ''a'')) = False
   \<and> strip ''hello'' \<noteq> [] \<and> length ''hello'' \<le> 2953
   \<and> validate_input ''hello'' = (True, ''Valid'')
   \<and> list_all is_space [CHR '' '', CHR 0x09, CHR 0x0A]
   \<and> validate_input [CHR '' '', CHR 0x09, CHR 0x0A] = (False, ''Input text cannot be empty'')
   \<and> validate_input '' '' = (False, ''Input text cannot be empty'')
   \<and> list_ex (\<lambda>c. \<not> is_space c) '' a '' \<and> fst (validate_input '' a '') = True"
proof -
  have h1: "length (replicate 2954 CHR ''a'') > 2953" by simp
  have h2: "strip ''hello'' \<noteq> []" by (simp add: strip_empty_iff is_space_def)
  have h3: "length ''hello'' \<le> 2953" by simp
  have h4: "\<forall>c\<in>set [CHR '' '', CHR 0x09, CHR 0x0A]. is_space c" by (simp add: is_space_def)
  have h5: "\<forall>c\<in>set '' ''. is_space c" by (simp add: is_space_def)
  have h6: "(\<exists>c\<in>set '' a ''. \<not> is_space c) \<and> length '' a '' \<le> 2953"
    by (simp add: is_space_def)
  have l4: "list_all is_space [CHR '' '', CHR 0x09, CHR 0x0A]" using h4 by (simp add: list_all_iff)
  have l6: "list_ex (\<lambda>c. \<not> is_space c) '' a ''" using h6 by (simp add: list_ex_iff)
  from validate_input_spec h1 h2 h3 h4 h5 h6 l4 l6 show ?thesis by blast
qed


section \<open>Properties of the color lookup\<close>

lemma lower_samples:
  "lower ''RED'' = ''red''" "lower ''red'' = ''red''" "lower ''mauve'' = ''mauve''"
  "lower ''DarkGreen'' = ''darkgreen''"
  by code_simp+

text \<open>
  C9. The color lookup of \<open>generate_colored_qr\<close> is total and depends on the name only
  through its lower-case form: \<open>RED\<close> and \<open>red\<close> give the same triple. The table has
  twelve entries with distinct names; a name whose lower-case form is in the table gives
  the triple of that entry, and any other name gives black \<open>(0, 0, 0)\<close> as foreground and
  white \<open>(255, 255, 255)\<close> as background.
\<close>

theorem color_resolver_spec:
  "(\<forall>a b. lower a = lower b \<longrightarrow> fg_rgb a = fg_rgb b \<and> bg_rgb a = bg_rgb b)
   \<and> fg_rgb ''RED'' = (255, 0, 0) \<and> fg_rgb ''red'' = (255, 0, 0)
   \<and> bg_rgb ''RED'' = (255, 0, 0) \<and> bg_rgb ''red'' = (255, 0, 0)
   \<and> length color_map = 12 \<and> distinct (map fst color_map)
   \<and> (\<forall>name c. (lower name, c) \<in> set color_map \<longrightarrow> fg_rgb name = c \<and> bg_rgb name = c)
   \<and> (\<forall>name. lower name \<notin> fst ` set color_map
         \<longrightarrow> fg_rgb name = (0, 0, 0) \<and> bg_rgb name = (255, 255, 255))
   \<and> fg_rgb ''mauve'' = (0, 0, 0) \<and> bg_rgb ''mauve'' = (255, 255, 255)"
proof -
  have d: "distinct (map fst color_map)" by (simp add: color_map_def)
  have a: "\<forall>a b. lower a = lower b \<longrightarrow> fg_rgb a = fg_rgb b \<and> bg_rgb a = bg_rgb b"
    by (simp add: fg_rgb_def bg_rgb_def)
  have b: "fg_rgb ''RED'' = (255, 0, 0)" "fg_rgb ''red'' = (255, 0, 0)"
    "bg_rgb ''RED'' = (255, 0, 0)" "bg_rgb ''red'' = (255, 0, 0)"
    "fg_rgb ''mauve'' = (0, 0, 0)" "bg_rgb ''mauve'' = (255, 255, 255)"
    by (simp_all add: fg_rgb_def bg_rgb_def lower_samples dict_get_def color_map_def)
  have c: "length color_map = 12" by (simp add: color_map_def)
  have e: "\<forall>name c. (lower name, c) \<in> set color_map \<longrightarrow> fg_rgb name = c \<and> bg_rgb name = c"
    using d by (simp add: fg_rgb_def bg_rgb_def dict_get_def)
  have f: "\<forall>name. lower name \<notin> fst ` set color_map
         \<longrightarrow> fg_rgb name = (0, 0, 0) \<and> bg_rgb name = (255, 255, 255)"
  proof (intro allI impI)
    fix name
    assume "lower name \<notin> fst ` set color_map"
    then have "map_of color_map (lower name) = None"
      by (simp add: map_of_eq_None_iff)
    then show "fg_rgb name = (0, 0, 0) \<and> bg_rgb name = (255, 255, 255)"
      by (simp add: fg_rgb_def bg_rgb_def dict_get_def)
  qed
  from a b c d e f show ?thesis by blast
qed

theorem color_resolver_spec_witness:
  "lower ''RED'' = lower ''red'' \<and> fg_rgb ''RED'' = fg_rgb ''red'' \<and> bg_rgb ''RED'' = bg_rgb ''red''
   \<and> (lower ''DarkGreen'', (0, 100, 0)) \<in> set color_map \<and> fg_rgb ''DarkGreen'' = (0, 100, 0)
   \<and> lower ''mauve'' \<notin> fst ` set color_map
   \<and> fg_rgb ''mauve'' = (0, 0, 0) \<and> bg_rgb ''mauve'' = (255, 255, 255)"
proof -
  have h1: "lower ''RED'' = lower ''red''" by (simp add: lower_samples)
  have h2: "(lower ''DarkGreen'', (0, 100, 0)) \<in> set color_map"
    by (simp add: lower_samples color_map_def)
  have h3: "lower ''mauve'' \<notin> fst ` set color_map"
    by (simp add: lower_samples color_map_def)
  from color_resolver_spec h1 h2 h3 show ?thesis by blast
qed


section \<open>Properties of the custom renderer\<close>

lemma getpixel_rectangle:
  "getpixel (rectangle img x1 y1 x2 y2 fill) (x, y)
   = paint (x1 \<le> x \<and> x \<le> x2 \<and> y1 \<le> y \<and> y \<le> y2) fill (getpixel img (x, y))"
  by (simp add: getpixel_def rectangle_def nth_enumerate_eq paint_def)

lemma getpixel_rectangle_covers:
  "getpixel (rectangle img (col * scale) (row * scale) (col * scale + scale) (row * scale + scale) fill) xy
   = paint (covers scale row col xy) fill (getpixel img xy)"
  by (cases xy) (simp add: getpixel_rectangle covers_def)

lemma getpixel_image_new:
  "getpixel (image_new w h c) (x, y) = (if x < w \<and> y < h then Some c else None)"
  by (auto simp: getpixel_def image_new_def)

lemma paint_paint: "paint a fill (paint b fill p) = paint (a \<or> b) fill p"
  by (cases p) (auto simp: paint_def)

lemma paint_False: "paint False fill p = p"
  by (cases p) (auto simp: paint_def)

lemma draw_cols_pixels:
  assumes "row < length modules" "\<forall>col\<in>set cols. col < length (modules ! row)"
  shows "\<exists>img'. draw_cols modules fill scale row cols img = Inr img'
           \<and> (\<forall>xy. getpixel img' xy
                = paint (\<exists>col\<in>set cols. modules ! row ! col \<and> covers scale row col xy) fill
                    (getpixel img xy))"
  using assms(2)
proof (induction cols arbitrary: img)
  case Nil
  show ?case by (simp add: paint_False)
next
  case (Cons col cols)
  have m: "module_at modules row col = Inr (modules ! row ! col)"
    using Cons.prems assms(1) by (simp add: module_at_def)
  have rest: "\<forall>c\<in>set cols. c < length (modules ! row)"
    using Cons.prems by simp
  define img1 where "img1 =
    (if modules ! row ! col
     then rectangle img (col * scale) (row * scale) (col * scale + scale) (row * scale + scale) fill
     else img)"
  have step: "draw_cols modules fill scale row (col # cols) img
              = draw_cols modules fill scale row cols img1"
    using m by (simp add: img1_def Let_def)
  have px1: "getpixel img1 xy = paint (modules ! row ! col \<and> covers scale row col xy) fill (getpixel img xy)" for xy
    by (simp add: img1_def getpixel_rectangle_covers paint_False)
  from Cons.IH[OF rest, of img1] obtain img' where
    d: "draw_cols modules fill scale row cols img1 = Inr img'" and
    p: "\<forall>xy. getpixel img' xy
          = paint (\<exists>c\<in>set cols. modules ! row ! c \<and> covers scale row c xy) fill (getpixel img1 xy)"
    by blast
  have "getpixel img' xy
          = paint (\<exists>c\<in>set (col # cols). modules ! row ! c \<and> covers scale row c xy) fill (getpixel img xy)" for xy
  proof -
    have "(\<exists>c\<in>set (col # cols). modules ! row ! c \<and> covers scale row c xy)
          = ((\<exists>c\<in>set cols. modules ! row ! c \<and> covers scale row c xy)
             \<or> (modules ! row ! col \<and> covers scale row col xy))"
      by auto
    then show ?thesis
      using p px1 by (simp only: paint_paint)
  qed
  with step d show ?case by simp
qed

lemma draw_rows_pixels:
  assumes "\<forall>row\<in>set rows. row < length modules \<and> (\<forall>col\<in>set cols. col < length (modules ! row))"
  shows "\<exists>img'. draw_rows modules fill scale rows cols img = Inr img'
           \<and> (\<forall>xy. getpixel img' xy
                = paint (\<exists>row\<in>set rows. \<exists>col\<in>set cols. modules ! row ! col \<and> covers scale row col xy)
                    fill (getpixel img xy))"
  using assms
proof (induction rows arbitrary: img)
  case Nil
  show ?case by (simp add: paint_False)
next
  case (Cons row rows)
  have r: "row < length modules" and c: "\<forall>col\<in>set cols. col < length (modules ! row)"
    using Cons.prems by simp_all
  have rest: "\<forall>row\<in>set rows. row < length modules \<and> (\<forall>col\<in>set cols. col < length (modules ! row))"
    using Cons.prems by simp
  from draw_cols_pixels[OF r c, of "fill" scale img] obtain img1 where
    d1: "draw_cols modules fill scale row cols img = Inr img1" and
    p1: "\<forall>xy. getpixel img1 xy
          = paint (\<exists>col\<in>set cols. modules ! row ! col \<and> covers scale row col xy) fill (getpixel img xy)"
    by blast
  from Cons.IH[OF rest, of img1] obtain img' where
    d: "draw_rows modules fill scale rows cols img1 = Inr img'" and
    p: "\<forall>xy. getpixel img' xy
          = paint (\<exists>r\<in>set rows. \<exists>c\<in>set cols. modules ! r ! c \<and> covers scale r c xy) fill (getpixel img1 xy)"
    by blast
  have "getpixel img' xy
          = paint (\<exists>r\<in>set (row # rows). \<exists>c\<in>set cols. modules ! r ! c \<and> covers scale r c xy) fill (getpixel img xy)" for xy
  proof -
    have "(\<exists>r\<in>set (row # rows). \<exists>c\<in>set cols. modules ! r ! c \<and> covers scale r c xy)
          = ((\<exists>r\<in>set rows. \<exists>c\<in>set cols. modules ! r ! c \<and> covers scale r c xy)
             \<or> (\<exists>c\<in>set cols. modules ! row ! c \<and> covers scale row c xy))"
      by auto
    then show ?thesis
      using p p1 by (simp only: paint_paint)
  qed
  with d1 d show ?case by simp
qed

lemma render_modules_pixels:
  assumes "\<forall>row\<in>set modules. length row = length modules"
  shows "\<exists>img. render_modules modules fg bg = Inr img
           \<and> (\<forall>x y. getpixel img (x, y)
                = (if x < length modules * 10 \<and> y < length modules * 10
                   then Some (if \<exists>row<length modules. \<exists>col<length modules.
                                   modules ! row ! col \<and> covers 10 row col (x, y)
                              then fg else bg)
                   else None))"
proof -
  let ?n = "length modules"
  have sq: "\<forall>row\<in>set [0..<?n]. row < ?n \<and> (\<forall>col\<in>set [0..<?n]. col < length (modules ! row))"
    using assms by simp
  from draw_rows_pixels[OF sq, of fg 10 "image_new (?n * 10) (?n * 10) bg"] obtain img where
    d: "draw_rows modules fg 10 [0..<?n] [0..<?n] (image_new (?n * 10) (?n * 10) bg) = Inr img" and
    p: "\<forall>xy. getpixel img xy
          = paint (\<exists>row\<in>set [0..<?n]. \<exists>col\<in>set [0..<?n]. modules ! row ! col \<and> covers 10 row col xy)
              fg (getpixel (image_new (?n * 10) (?n * 10) bg) xy)"
    by blast
  have "render_modules modules fg bg = Inr img"
    using d by (simp add: render_modules_def Let_def)
  moreover have "getpixel img (x, y)
                = (if x < ?n * 10 \<and> y < ?n * 10
                   then Some (if \<exists>row<?n. \<exists>col<?n. modules ! row ! col \<and> covers 10 row col (x, y)
                              then fg else bg)
                   else None)" for x y
  proof -
    have "(\<exists>row\<in>set [0..<?n]. \<exists>col\<in>set [0..<?n]. modules ! row ! col \<and> covers 10 row col (x, y))
          = (\<exists>row<?n. \<exists>col<?n. modules ! row ! col \<and> covers 10 row col (x, y))"
      by (simp add: Bex_def)
    with p[rule_format, of "(x, y)"] show ?thesis
      by (simp add: getpixel_image_new paint_def)
  qed
  ultimately show ?thesis by blast
qed

lemma first_dark_in_row_Some:
  "first_dark_in_row r c0 = Some col \<Longrightarrow> \<exists>i<length r. col = c0 + i \<and> r ! i"
proof (induction r arbitrary: c0)
  case Nil
  then show ?case by simp
next
  case (Cons m ms)
  show ?case
  proof (cases m)
    case True
    with Cons.prems show ?thesis by auto
  next
    case False
    with Cons.prems have "first_dark_in_row ms (Suc c0) = Some col" by simp
    from Cons.IH[OF this] obtain i where "i < length ms" "col = Suc c0 + i" "ms ! i" by blast
    then have "Suc i < length (m # ms) \<and> col = c0 + Suc i \<and> (m # ms) ! Suc i" by simp
    then show ?thesis by blast
  qed
qed

lemma first_dark_from_Some:
  "first_dark_from rs r0 = Some (row, col)
   \<Longrightarrow> \<exists>i<length rs. row = r0 + i \<and> col < length (rs ! i) \<and> rs ! i ! col"
proof (induction rs arbitrary: r0)
  case Nil
  then show ?case by simp
next
  case (Cons r rs)
  show ?case
  proof (cases "first_dark_in_row r 0")
    case None
    with Cons.prems have "first_dark_from rs (Suc r0) = Some (row, col)" by simp
    from Cons.IH[OF this] obtain i where
      "i < length rs" "row = Suc r0 + i" "col < length (rs ! i)" "rs ! i ! col" by blast
    then have "Suc i < length (r # rs) \<and> row = r0 + Suc i
               \<and> col < length ((r # rs) ! Suc i) \<and> (r # rs) ! Suc i ! col" by simp
    then show ?thesis by blast
  next
    case (Some c)
    with Cons.prems have rc: "row = r0" "c = col" by simp_all
    from first_dark_in_row_Some[OF Some] rc have "col < length r \<and> r ! col" by auto
    with rc have "0 < length (r # rs) \<and> row = r0 + 0
               \<and> col < length ((r # rs) ! 0) \<and> (r # rs) ! 0 ! col" by simp
    then show ?thesis by blast
  qed
qed

lemma first_dark_Some:
  "first_dark modules = Some (row, col)
   \<Longrightarrow> row < length modules \<and> col < length (modules ! row) \<and> modules ! row ! col"
  using first_dark_from_Some[of modules 0 row col] by (auto simp: first_dark_def)

lemma blue_yellow: "fg_rgb ''blue'' = (0, 0, 255)" "bg_rgb ''yellow'' = (255, 255, 0)"
proof -
  have "lower ''blue'' = ''blue''" "lower ''yellow'' = ''yellow''" by code_simp+
  then show "fg_rgb ''blue'' = (0, 0, 255)" "bg_rgb ''yellow'' = (255, 255, 0)"
    by (simp_all add: fg_rgb_def bg_rgb_def dict_get_def color_map_def)
qed

lemma covers_origin: "covers 10 row col (0, 0) \<longleftrightarrow> row = 0 \<and> col = 0"
  by (auto simp: covers_def)

lemma covers_block: "dx < 10 \<Longrightarrow> dy < 10 \<Longrightarrow> covers 10 row col (col * 10 + dx, row * 10 + dy)"
  by (simp add: covers_def)

text \<open>
  C3, as amended. For a matrix of 21 by 21 modules, foreground \<open>blue\<close> and background
  \<open>yellow\<close>, the custom renderer raises nothing and yields an image in which every pixel of
  the 10 by 10 block of the first dark module is blue \<open>(0, 0, 255)\<close>. The renderer leaves no
  quiet zone, so the pixel at \<open>(0, 0)\<close> belongs to the module at row 0, column 0: it is yellow
  \<open>(255, 255, 0)\<close> when that module is light and blue when it is dark.
\<close>

theorem colored_raster_pixels:
  assumes "length modules = 21" and "\<forall>row\<in>set modules. length row = 21"
  shows "\<exists>img. render_modules modules (fg_rgb ''blue'') (bg_rgb ''yellow'') = Inr img
           \<and> getpixel img (0, 0) = Some (if modules ! 0 ! 0 then (0, 0, 255) else (255, 255, 0))
           \<and> (\<forall>row col. first_dark modules = Some (row, col)
                \<longrightarrow> (\<forall>dx<10. \<forall>dy<10.
                       getpixel img (col * 10 + dx, row * 10 + dy) = Some (0, 0, 255)))"
proof -
  have sq: "\<forall>row\<in>set modules. length row = length modules"
    using assms by simp
  from render_modules_pixels[OF sq, of "(0, 0, 255)" "(255, 255, 0)"] obtain img where
    r: "render_modules modules (0, 0, 255) (255, 255, 0) = Inr img" and
    p: "\<And>x y. getpixel img (x, y)
          = (if x < length modules * 10 \<and> y < length modules * 10
             then Some (if \<exists>row<length modules. \<exists>col<length modules.
                             modules ! row ! col \<and> covers 10 row col (x, y)
                        then (0, 0, 255) else (255, 255, 0))
             else None)"
    by blast
  have corner: "getpixel img (0, 0) = Some (if modules ! 0 ! 0 then (0, 0, 255) else (255, 255, 0))"
    using assms(1) by (simp add: p covers_origin)
  have block: "getpixel img (col * 10 + dx, row * 10 + dy) = Some (0, 0, 255)"
    if fd: "first_dark modules = Some (row, col)" and dx: "dx < 10" and dy: "dy < 10"
    for row col dx dy
  proof -
    from first_dark_Some[OF fd] have rw: "row < length modules"
      and cl: "col < length (modules ! row)" and dk: "modules ! row ! col" by simp_all
    from rw assms(2) have "length (modules ! row) = 21" by simp
    with cl assms(1) have cl': "col < length modules" by simp
    have "\<exists>r<length modules. \<exists>c<length modules.
            modules ! r ! c \<and> covers 10 r c (col * 10 + dx, row * 10 + dy)"
      using rw cl' dk covers_block[OF dx dy] by blast
    moreover have "col * 10 + dx < length modules * 10" "row * 10 + dy < length modules * 10"
      using rw cl' dx dy by simp_all
    ultimately show ?thesis by (simp add: p)
  qed
  from r corner block show ?thesis
    by (simp add: blue_yellow)
qed

lemma finder_matrix_shape:
  "length finder_matrix = 21" "\<forall>row\<in>set finder_matrix. length row = 21"
  "first_dark finder_matrix = Some (0, 0)" "finder_matrix ! 0 ! 0"
  by (simp_all add: finder_matrix_def finder_rows_def first_dark_def)

theorem colored_raster_pixels_witness:
  "length finder_matrix = 21 \<and> map length finder_matrix = replicate 21 21
   \<and> first_dark finder_matrix = Some (0, 0)
   \<and> (\<exists>img. render_modules finder_matrix (fg_rgb ''blue'') (bg_rgb ''yellow'') = Inr img
         \<and> getpixel img (0, 0) = Some (0, 0, 255)
         \<and> getpixel img (9, 9) = Some (0, 0, 255))"
proof -
  from colored_raster_pixels[OF finder_matrix_shape(1,2)] obtain img where
    r: "render_modules finder_matrix (fg_rgb ''blue'') (bg_rgb ''yellow'') = Inr img" and
    c: "getpixel img (0, 0) = Some (if finder_matrix ! 0 ! 0 then (0, 0, 255) else (255, 255, 0))" and
    b: "\<forall>row col. first_dark finder_matrix = Some (row, col)
           \<longrightarrow> (\<forall>dx<10. \<forall>dy<10. getpixel img (col * 10 + dx, row * 10 + dy) = Some (0, 0, 255))"
    by blast
  from b finder_matrix_shape(3) have "\<forall>dx<10. \<forall>dy<10. getpixel img (0 * 10 + dx, 0 * 10 + dy) = Some (0, 0, 255)"
    by blast
  then have "getpixel img (0 * 10 + 9, 0 * 10 + 9) = Some (0, 0, 255)" by simp
  then have "getpixel img (9, 9) = Some (0, 0, 255)" by simp
  moreover have "map length finder_matrix = replicate 21 21" by code_simp
  ultimately show ?thesis using r c finder_matrix_shape(1,3,4) by auto
qed

text \<open>
  C3, as stated, has the pixel at \<open>(0, 0)\<close> yellow. On a 21 by 21 matrix whose top-left module
  is dark, as the finder pattern of every symbol makes it, that pixel is blue.
\<close>

theorem colored_corner_counterexample:
  "map length finder_matrix = replicate 21 21
   \<and> (case render_modules finder_matrix (fg_rgb ''blue'') (bg_rgb ''yellow'') of
        Inl e \<Rightarrow> None
      | Inr img \<Rightarrow> getpixel img (0, 0)) = Some (0, 0, 255)
   \<and> (case render_modules finder_matrix (fg_rgb ''blue'') (bg_rgb ''yellow'') of
        Inl e \<Rightarrow> None
      | Inr img \<Rightarrow> getpixel img (0, 0)) \<noteq> Some (255, 255, 0)"
proof -
  have sq: "\<forall>row\<in>set finder_matrix. length row = length finder_matrix"
    using finder_matrix_shape by simp
  from render_modules_pixels[OF sq, of "fg_rgb ''blue''" "bg_rgb ''yellow''"] obtain img where
    r: "render_modules finder_matrix (fg_rgb ''blue'') (bg_rgb ''yellow'') = Inr img" and
    p: "\<And>x y. getpixel img (x, y)
          = (if x < length finder_matrix * 10 \<and> y < length finder_matrix * 10
             then Some (if \<exists>row<length finder_matrix. \<exists>col<length finder_matrix.
                             finder_matrix ! row ! col \<and> covers 10 row col (x, y)
                        then fg_rgb ''blue'' else bg_rgb ''yellow'')
             else None)"
    by blast
  have "getpixel img (0, 0) = Some (0, 0, 255)"
    using finder_matrix_shape(1,4) by (simp add: p covers_origin blue_yellow)
  moreover have "map length finder_matrix = replicate 21 21"
    by code_simp
  ultimately show ?thesis using r by simp
qed


section \<open>Properties of decoding\<close>

lemmas io_defs = bind_def ret_def raise_def try_except_def print_def ext_def ext_unit_def

lemma split_first_not_None: "sep \<in> set s \<Longrightarrow> split_first sep s \<noteq> None"
  by (induction s) (auto split: option.splits)

lemma wifi_parts_total: "\<exists>d. wifi_parts parts m = Inr d"
proof (induction parts arbitrary: m)
  case Nil
  show ?case by simp
next
  case (Cons part parts)
  show ?case
  proof (cases "CHR '':'' \<in> set part")
    case True
    then obtain k v where kv: "split_first CHR '':'' part = Some (k, v)"
      using split_first_not_None[of "CHR '':''" part] by (cases "split_first CHR '':'' part") auto
    from Cons.IH[of "m(k \<mapsto> v)"] obtain d where "wifi_parts parts (m(k \<mapsto> v)) = Inr d"
      by blast
    with True kv show ?thesis by simp
  next
    case False
    with Cons.IH[of m] show ?thesis by simp
  qed
qed

lemma wifi_info_total: "\<exists>d. wifi_info s = Inr d"
  by (simp add: wifi_info_def wifi_parts_total)

lemma parse_wifi_qr_display:
  "wifi_info s = Inr d \<Longrightarrow>
   parse_wifi_qr s = (Inr (), [Print MsgWifiDetected,
                               Print (MsgWifiSsid (dict_get d ''S'' ''N/A'')),
                               Print (MsgWifiPassword (dict_get d ''P'' ''N/A'')),
                               Print (MsgWifiSecurity (dict_get d ''T'' ''N/A'')),
                               Print (MsgWifiHidden (dict_get d ''H'' ''false''))])"
  by (simp add: parse_wifi_qr_def io_defs)



text \<open>
  C4. The decoded text is classified by the first prefix that matches, in this order: a
  text that starts with \<open>WIFI:\<close> is handed to \<open>parse_wifi_qr\<close>, which prints the four fields
  of the dictionary it builds; otherwise one that starts with \<open>http\<close> is reported as a URL
  (so is \<open>httpfoo\<close>); otherwise one that starts with \<open>tel:\<close> as a phone number; otherwise
  one that starts with \<open>mailto:\<close> as an email; otherwise nothing is printed.
\<close>

theorem classify_first_match:
  "(prefix ''WIFI:'' text \<longrightarrow>
      classify text = parse_wifi_qr text
      \<and> (\<exists>d. wifi_info text = Inr d
             \<and> snd (classify text) = [Print MsgWifiDetected,
                               Print (MsgWifiSsid (dict_get d ''S'' ''N/A'')),
                               Print (MsgWifiPassword (dict_get d ''P'' ''N/A'')),
                               Print (MsgWifiSecurity (dict_get d ''T'' ''N/A'')),
                               Print (MsgWifiHidden (dict_get d ''H'' ''false''))]))
   \<and> (\<not> prefix ''WIFI:'' text \<and> prefix ''http'' text \<longrightarrow>
        classify text = (Inr (), [Print MsgUrlDetected]))
   \<and> (\<not> prefix ''WIFI:'' text \<and> \<not> prefix ''http'' text \<and> prefix ''tel:'' text \<longrightarrow>
        classify text = (Inr (), [Print MsgPhoneDetected]))
   \<and> (\<not> prefix ''WIFI:'' text \<and> \<not> prefix ''http'' text \<and> \<not> prefix ''tel:'' text
        \<and> prefix ''mailto:'' text \<longrightarrow>
        classify text = (Inr (), [Print MsgEmailDetected]))
   \<and> (\<not> prefix ''WIFI:'' text \<and> \<not> prefix ''http'' text \<and> \<not> prefix ''tel:'' text
        \<and> \<not> prefix ''mailto:'' text \<longrightarrow>
        classify text = (Inr (), []))
   \<and> classify ''httpfoo'' = (Inr (), [Print MsgUrlDetected])"
proof -
  have w: "prefix ''WIFI:'' text \<longrightarrow>
      classify text = parse_wifi_qr text
      \<and> (\<exists>d. wifi_info text = Inr d
             \<and> snd (classify text) = [Print MsgWifiDetected,
                               Print (MsgWifiSsid (dict_get d ''S'' ''N/A'')),
                               Print (MsgWifiPassword (dict_get d ''P'' ''N/A'')),
                               Print (MsgWifiSecurity (dict_get d ''T'' ''N/A'')),
                               Print (MsgWifiHidden (dict_get d ''H'' ''false''))])"
  proof
    assume p: "prefix ''WIFI:'' text"
    then have c: "classify text = parse_wifi_qr text" by (simp add: classify_def)
    obtain d where d: "wifi_info text = Inr d" using wifi_info_total by blast
    from parse_wifi_qr_display[OF d] c d
    show "classify text = parse_wifi_qr text
      \<and> (\<exists>d. wifi_info text = Inr d
             \<and> snd (classify text) = [Print MsgWifiDetected,
                               Print (MsgWifiSsid (dict_get d ''S'' ''N/A'')),
                               Print (MsgWifiPassword (dict_get d ''P'' ''N/A'')),
                               Print (MsgWifiSecurity (dict_get d ''T'' ''N/A'')),
                               Print (MsgWifiHidden (dict_get d ''H'' ''false''))])"
      by simp
  qed
  have rest: "(\<not> prefix ''WIFI:'' text \<and> prefix ''http'' text \<longrightarrow>
        classify text = (Inr (), [Print MsgUrlDetected]))"
    "(\<not> prefix ''WIFI:'' text \<and> \<not> prefix ''http'' text \<and> prefix ''tel:'' text \<longrightarrow>
        classify text = (Inr (), [Print MsgPhoneDetected]))"
    "(\<not> prefix ''WIFI:'' text \<and> \<not> prefix ''http'' text \<and> \<not> prefix ''tel:'' text
        \<and> prefix ''mailto:'' text \<longrightarrow>
        classify text = (Inr (), [Print MsgEmailDetected]))"
    "(\<not> prefix ''WIFI:'' text \<and> \<not> prefix ''http'' text \<and> \<not> prefix ''tel:'' text
        \<and> \<not> prefix ''mailto:'' text \<longrightarrow>
        classify text = (Inr (), []))"
    "classify ''httpfoo'' = (Inr (), [Print MsgUrlDetected])"
    by (simp_all add: classify_def io_defs)
  from w rest show ?thesis by blast
qed

theorem classify_first_match_witness:
  "prefix ''WIFI:'' ''WIFI:T:WPA;S:HomeNet;P:secret123;H:false;;''
   \<and> snd (classify ''WIFI:T:WPA;S:HomeNet;P:secret123;H:false;;'')
       = [Print MsgWifiDetected, Print (MsgWifiSsid ''HomeNet''),
          Print (MsgWifiPassword ''secret123''), Print (MsgWifiSecurity ''WPA''),
          Print (MsgWifiHidden ''false'')]
   \<and> classify ''https://example.org'' = (Inr (), [Print MsgUrlDetected])
   \<and> classify ''tel:+123'' = (Inr (), [Print MsgPhoneDetected])
   \<and> classify ''mailto:a@b.c'' = (Inr (), [Print MsgEmailDetected])
   \<and> classify ''plain text'' = (Inr (), [])"
proof -
  have d: "wifi_info ''WIFI:T:WPA;S:HomeNet;P:secret123;H:false;;''
           = Inr [''T'' \<mapsto> ''WPA'', ''S'' \<mapsto> ''HomeNet'', ''P'' \<mapsto> ''secret123'', ''H'' \<mapsto> ''false'']"
    by (simp add: wifi_info_def)
  have 1: "prefix ''WIFI:'' ''WIFI:T:WPA;S:HomeNet;P:secret123;H:false;;''" by simp
  from classify_first_match[of "''WIFI:T:WPA;S:HomeNet;P:secret123;H:false;;''"] 1 d
  have a: "snd (classify ''WIFI:T:WPA;S:HomeNet;P:secret123;H:false;;'')
       = [Print MsgWifiDetected, Print (MsgWifiSsid ''HomeNet''),
          Print (MsgWifiPassword ''secret123''), Print (MsgWifiSecurity ''WPA''),
          Print (MsgWifiHidden ''false'')]"
    by (auto simp: dict_get_def)
  have b: "classify ''https://example.org'' = (Inr (), [Print MsgUrlDetected])"
    using classify_first_match[of "''https://example.org''"] by simp
  have c: "classify ''tel:+123'' = (Inr (), [Print MsgPhoneDetected])"
    using classify_first_match[of "''tel:+123''"] by simp
  have e: "classify ''mailto:a@b.c'' = (Inr (), [Print MsgEmailDetected])"
    using classify_first_match[of "''mailto:a@b.c''"] by simp
  have f: "classify ''plain text'' = (Inr (), [])"
    using classify_first_match[of "''plain text''"] by simp
  from 1 a b c e f show ?thesis by blast
qed




section \<open>Properties of generation\<close>

lemma generate_colored_qr_cases:
  "generate_colored_qr env qr p fg bg =
     (case render_modules (code qr) (fg_rgb fg) (bg_rgb bg) of
        Inr img \<Rightarrow>
          (case img_save env img p of
             None \<Rightarrow> (Inr (), [Ext (Save img p) None])
           | Some e \<Rightarrow>
               ((case qr_png env qr p 10 of None \<Rightarrow> Inr () | Some e' \<Rightarrow> Inl e'),
                [Ext (Save img p) (Some e), Print (MsgErrorColored e),
                 Ext (Png p 10) (qr_png env qr p 10)]))
      | Inl e \<Rightarrow>
          ((case qr_png env qr p 10 of None \<Rightarrow> Inr () | Some e' \<Rightarrow> Inl e'),
           [Print (MsgErrorColored e), Ext (Png p 10) (qr_png env qr p 10)]))"
  by (simp add: generate_colored_qr_def io_defs split: sum.splits option.splits)

lemma lower_formats: "lower ''png'' = ''png''" "lower ''PNG'' = ''png''" "lower ''both'' = ''both''"
  by code_simp+

lemma render_finder_total: "\<exists>img. render_modules finder_matrix fg bg = Inr img"
proof -
  have "\<forall>row\<in>set finder_matrix. length row = length finder_matrix"
    by (simp add: finder_matrix_def finder_rows_def)
  from render_modules_pixels[OF this, of fg bg] show ?thesis by blast
qed

text \<open>
  C5. When the encoder and the terminal rendering succeed and a PNG is to be written
  (format \<open>png\<close>, or \<open>both\<close> once the SVG is written): with the colors \<open>black\<close> and \<open>white\<close>
  the only raster call is the built-in writer on the PNG path at scale 10; with any other
  pair the raster calls are those of \<open>generate_colored_qr\<close>, whose outcome decides that of
  the call. \<open>generate_colored_qr\<close> saves the image it drew; if drawing or saving raises, it
  prints the error and calls the built-in writer on the same path at scale 10, and only an
  exception of that writer leaves it.
\<close>

theorem png_dispatch_and_fallback:
  assumes "qr_create env raw_text = Inr qr" and "qr_terminal env qr = Inr term"
    and "lower output_format = ''png''
         \<or> (lower output_format = ''both'' \<and> qr_svg env qr 10 = Inr buf
            \<and> file_write env (''qrcodes/'' @ file_name @ ''.svg'') buf = None)"
  shows "(fg_color = ''black'' \<and> bg_color = ''white'' \<longrightarrow>
            raster_calls (snd (generate_qr env raw_text file_name output_format fg_color bg_color))
              = [Png (''qrcodes/'' @ file_name @ ''.png'') 10])
         \<and> (\<not> (fg_color = ''black'' \<and> bg_color = ''white'') \<longrightarrow>
              raster_calls (snd (generate_qr env raw_text file_name output_format fg_color bg_color))
                = raster_calls (snd (generate_colored_qr env qr (''qrcodes/'' @ file_name @ ''.png'')
                                       fg_color bg_color))
              \<and> (fst (generate_qr env raw_text file_name output_format fg_color bg_color) = Inr True
                   \<longleftrightarrow> fst (generate_colored_qr env qr (''qrcodes/'' @ file_name @ ''.png'')
                              fg_color bg_color) = Inr ()))
         \<and> generate_colored_qr env qr p fg_color bg_color =
             (case render_modules (code qr) (fg_rgb fg_color) (bg_rgb bg_color) of
                Inr img \<Rightarrow>
                  (case img_save env img p of
                     None \<Rightarrow> (Inr (), [Ext (Save img p) None])
                   | Some e \<Rightarrow>
                       ((case qr_png env qr p 10 of None \<Rightarrow> Inr () | Some e' \<Rightarrow> Inl e'),
                        [Ext (Save img p) (Some e), Print (MsgErrorColored e),
                         Ext (Png p 10) (qr_png env qr p 10)]))
              | Inl e \<Rightarrow>
                  ((case qr_png env qr p 10 of None \<Rightarrow> Inr () | Some e' \<Rightarrow> Inl e'),
                   [Print (MsgErrorColored e), Ext (Png p 10) (qr_png env qr p 10)]))"
proof -
  have "lower output_format = ''both'' \<Longrightarrow> lower output_format \<noteq> ''png''"
       "lower output_format = ''both'' \<Longrightarrow> lower output_format \<noteq> ''svg''"
       "lower output_format = ''png'' \<Longrightarrow> lower output_format \<noteq> ''svg''"
    by auto
  with assms have a: "fg_color = ''black'' \<and> bg_color = ''white'' \<longrightarrow>
            raster_calls (snd (generate_qr env raw_text file_name output_format fg_color bg_color))
              = [Png (''qrcodes/'' @ file_name @ ''.png'') 10]"
    by (auto simp: generate_qr_def io_defs Let_def raster_calls_def split: option.splits)
  have b: "\<not> (fg_color = ''black'' \<and> bg_color = ''white'') \<longrightarrow>
              raster_calls (snd (generate_qr env raw_text file_name output_format fg_color bg_color))
                = raster_calls (snd (generate_colored_qr env qr (''qrcodes/'' @ file_name @ ''.png'')
                                       fg_color bg_color))
              \<and> (fst (generate_qr env raw_text file_name output_format fg_color bg_color) = Inr True
                   \<longleftrightarrow> fst (generate_colored_qr env qr (''qrcodes/'' @ file_name @ ''.png'')
                              fg_color bg_color) = Inr ())"
    using assms unfolding generate_qr_def generate_colored_qr_cases
    by (auto simp: io_defs Let_def raster_calls_def split: option.splits sum.splits)
  from a b generate_colored_qr_cases[of env qr p fg_color bg_color] show ?thesis by blast
qed

theorem png_dispatch_and_fallback_witness:
  "qr_create disk_full_env ''test'' = Inr \<lparr>data = ''test'', code = finder_matrix\<rparr>
   \<and> qr_terminal disk_full_env \<lparr>data = ''test'', code = finder_matrix\<rparr> = Inr []
   \<and> lower ''png'' = ''png''
   \<and> raster_calls (snd (generate_qr disk_full_env ''test'' ''out'' ''png'' ''black'' ''white''))
       = [Png ''qrcodes/out.png'' 10]
   \<and> (\<exists>img. raster_calls (snd (generate_qr disk_full_env ''test'' ''out'' ''png'' ''red'' ''white''))
       = [Save img ''qrcodes/out.png'', Png ''qrcodes/out.png'' 10])
   \<and> lower ''both'' = ''both''
   \<and> qr_svg disk_full_env \<lparr>data = ''test'', code = finder_matrix\<rparr> 10 = Inr ''<svg/>''
   \<and> file_write disk_full_env ''qrcodes/out.svg'' ''<svg/>'' = None
   \<and> raster_calls (snd (generate_qr disk_full_env ''test'' ''out'' ''both'' ''black'' ''white''))
       = [Png ''qrcodes/out.png'' 10]"
proof -
  let ?qr = "\<lparr>data = ''test'', code = finder_matrix\<rparr>"
  have h1: "qr_create disk_full_env ''test'' = Inr ?qr"
    and h2: "qr_terminal disk_full_env ?qr = Inr []"
    by (simp_all add: disk_full_env_def)
  have h3: "lower ''png'' = ''png'' \<or> (lower ''png'' = ''both'' \<and> qr_svg disk_full_env ?qr 10 = Inr []
            \<and> file_write disk_full_env (''qrcodes/'' @ ''out'' @ ''.svg'') [] = None)"
    by (simp add: lower_formats)
  note t = png_dispatch_and_fallback[OF h1 h2 h3]
  have a: "raster_calls (snd (generate_qr disk_full_env ''test'' ''out'' ''png'' ''black'' ''white''))
       = [Png ''qrcodes/out.png'' 10]"
    using t[of "''black''" "''white''" "[]"] by simp
  obtain img where r: "render_modules finder_matrix (fg_rgb ''red'') (bg_rgb ''white'') = Inr img"
    using render_finder_total by blast
  have "raster_calls (snd (generate_qr disk_full_env ''test'' ''out'' ''png'' ''red'' ''white''))
       = raster_calls (snd (generate_colored_qr disk_full_env ?qr ''qrcodes/out.png'' ''red'' ''white''))"
    using t[of "''red''" "''white''" "[]"] by simp
  also have "\<dots> = [Save img ''qrcodes/out.png'', Png ''qrcodes/out.png'' 10]"
    using t[of "''red''" "''white''" "''qrcodes/out.png''"] r
    by (simp add: disk_full_env_def raster_calls_def)
  finally have b: "\<exists>img. raster_calls (snd (generate_qr disk_full_env ''test'' ''out'' ''png'' ''red'' ''white''))
       = [Save img ''qrcodes/out.png'', Png ''qrcodes/out.png'' 10]"
    by blast
  have h4: "lower ''both'' = ''png''
            \<or> (lower ''both'' = ''both'' \<and> qr_svg disk_full_env ?qr 10 = Inr ''<svg/>''
               \<and> file_write disk_full_env (''qrcodes/'' @ ''out'' @ ''.svg'') ''<svg/>'' = None)"
    by (simp add: lower_formats disk_full_env_def)
  have c: "raster_calls (snd (generate_qr disk_full_env ''test'' ''out'' ''both'' ''black'' ''white''))
       = [Png ''qrcodes/out.png'' 10]"
    using png_dispatch_and_fallback[OF h1 h2 h4, of "''black''" "''white''" "[]"] by simp
  have d: "qr_svg disk_full_env ?qr 10 = Inr ''<svg/>''"
    "file_write disk_full_env ''qrcodes/out.svg'' ''<svg/>'' = None"
    by (simp_all add: disk_full_env_def)
  from h1 h2 a b c d show ?thesis by (simp add: lower_formats)
qed




text \<open>
  C10, as amended. \<open>generate_wifi_qr\<close> prints its four lines and then is \<open>generate_qr\<close> on
  the payload with format \<open>png\<close> and the colors \<open>black\<close> and \<open>white\<close>. Its only external
  calls are the encoder, the terminal rendering and the built-in writer on the PNG path at
  scale 10: no SVG is written and no image is drawn in color. The built-in writer is
  called once when the encoder and the terminal rendering succeed, and not at all
  otherwise. The call returns \<open>True\<close> exactly when these three calls succeed; it then made
  exactly these three calls, once each, and none raised.
\<close>

theorem generate_wifi_qr_defaults:
  "fst (generate_wifi_qr env ssid password security hidden file_name)
     = fst (generate_qr env (wifi_string ssid password security hidden)
              (if file_name = [] then ''wifi_'' @ ssid @ ''_'' @ now_stamp env else file_name)
              ''png'' ''black'' ''white'')
   \<and> snd (generate_wifi_qr env ssid password security hidden file_name)
     = [Print MsgWifiGenerating, Print (MsgSsid ssid), Print (MsgSecurity security),
        Print (MsgHidden hidden)]
       @ snd (generate_qr env (wifi_string ssid password security hidden)
              (if file_name = [] then ''wifi_'' @ ssid @ ''_'' @ now_stamp env else file_name)
              ''png'' ''black'' ''white'')
   \<and> set (ext_calls (snd (generate_wifi_qr env ssid password security hidden file_name)))
       \<subseteq> {Create (wifi_string ssid password security hidden), Terminal,
           Png (''qrcodes/''
                @ (if file_name = [] then ''wifi_'' @ ssid @ ''_'' @ now_stamp env else file_name)
                @ ''.png'') 10}
   \<and> (fst (generate_wifi_qr env ssid password security hidden file_name) = Inr True \<longrightarrow>
        ext_calls (snd (generate_wifi_qr env ssid password security hidden file_name))
          = [Create (wifi_string ssid password security hidden), Terminal,
             Png (''qrcodes/''
                  @ (if file_name = [] then ''wifi_'' @ ssid @ ''_'' @ now_stamp env else file_name)
                  @ ''.png'') 10]
        \<and> raised (snd (generate_wifi_qr env ssid password security hidden file_name)) = [])
   \<and> raster_calls (snd (generate_wifi_qr env ssid password security hidden file_name))
       = (if \<exists>qr term. qr_create env (wifi_string ssid password security hidden) = Inr qr
                       \<and> qr_terminal env qr = Inr term
          then [Png (''qrcodes/''
                  @ (if file_name = [] then ''wifi_'' @ ssid @ ''_'' @ now_stamp env else file_name)
                  @ ''.png'') 10]
          else [])
   \<and> (fst (generate_wifi_qr env ssid password security hidden file_name) = Inr True
        \<longleftrightarrow> (\<exists>qr term. qr_create env (wifi_string ssid password security hidden) = Inr qr
                       \<and> qr_terminal env qr = Inr term
                       \<and> qr_png env qr (''qrcodes/''
                  @ (if file_name = [] then ''wifi_'' @ ssid @ ''_'' @ now_stamp env else file_name)
                  @ ''.png'') 10 = None))"
proof -
  have l: "lower ''png'' = ''png''" "lower ''png'' \<noteq> ''svg''"
    using lower_formats(1) by simp_all
  show ?thesis
    unfolding generate_wifi_qr_def generate_qr_defaults_def generate_qr_def
    by (auto simp: io_defs Let_def l raster_calls_def split: sum.splits option.splits)
qed

theorem generate_wifi_qr_defaults_witness:
  "fst (generate_wifi_qr disk_full_env ''HomeNet'' ''secret123'' ''WPA'' False ''home'') = Inr True
   \<and> ext_calls (snd (generate_wifi_qr disk_full_env ''HomeNet'' ''secret123'' ''WPA'' False ''home''))
       = [Create ''WIFI:T:WPA;S:HomeNet;P:secret123;H:false;;'', Terminal,
          Png ''qrcodes/home.png'' 10]
   \<and> raised (snd (generate_wifi_qr disk_full_env ''HomeNet'' ''secret123'' ''WPA'' False ''home'')) = []"
proof -
  have h: "fst (generate_wifi_qr disk_full_env ''HomeNet'' ''secret123'' ''WPA'' False ''home'') = Inr True"
    by (simp add: generate_wifi_qr_def generate_qr_defaults_def generate_qr_def io_defs
        disk_full_env_def lower_formats Let_def)
  have w: "wifi_string ''HomeNet'' ''secret123'' ''WPA'' False
           = ''WIFI:T:WPA;S:HomeNet;P:secret123;H:false;;''"
    by (simp add: wifi_string_def)
  have p: "''qrcodes/'' @ (if ''home'' = [] then ''wifi_'' @ ''HomeNet'' @ ''_'' @ now_stamp disk_full_env
                           else ''home'') @ ''.png'' = ''qrcodes/home.png''"
    by simp
  from generate_wifi_qr_defaults[of disk_full_env "''HomeNet''" "''secret123''" "''WPA''" False "''home''"] h
  have "ext_calls (snd (generate_wifi_qr disk_full_env ''HomeNet'' ''secret123'' ''WPA'' False ''home''))
          = [Create (wifi_string ''HomeNet'' ''secret123'' ''WPA'' False), Terminal,
             Png (''qrcodes/'' @ (if ''home'' = [] then ''wifi_'' @ ''HomeNet'' @ ''_'' @ now_stamp disk_full_env
                           else ''home'') @ ''.png'') 10]
        \<and> raised (snd (generate_wifi_qr disk_full_env ''HomeNet'' ''secret123'' ''WPA'' False ''home'')) = []"
    by blast
  then have "ext_calls (snd (generate_wifi_qr disk_full_env ''HomeNet'' ''secret123'' ''WPA'' False ''home''))
          = [Create ''WIFI:T:WPA;S:HomeNet;P:secret123;H:false;;'', Terminal,
             Png ''qrcodes/home.png'' 10]
        \<and> raised (snd (generate_wifi_qr disk_full_env ''HomeNet'' ''secret123'' ''WPA'' False ''home'')) = []"
    by (simp only: w p)
  with h show ?thesis by blast
qed

text \<open>
  C10, as stated, has every call produce one PNG. The payload is not validated on this
  path: for an SSID of 3000 characters an encoder that refuses such a text raises, the call
  returns \<open>False\<close> and the built-in writer is never called.
\<close>

theorem generate_wifi_qr_no_artifact_counterexample:
  "fst (generate_wifi_qr strict_encoder_env (replicate 3000 CHR ''a'') ''secret123'' ''WPA'' False
          ''home'') = Inr False
   \<and> raster_calls (snd (generate_wifi_qr strict_encoder_env (replicate 3000 CHR ''a'') ''secret123''
          ''WPA'' False ''home'')) = []"
proof -
  have "length (wifi_string (replicate 3000 CHR ''a'') ''secret123'' ''WPA'' False) > 2953"
    by (simp add: wifi_string_def)
  then have c: "qr_create strict_encoder_env (wifi_string (replicate 3000 CHR ''a'') ''secret123'' ''WPA'' False)
             = Inl (LibraryError ''Data can not be encoded, too large'')"
    by (simp add: strict_encoder_env_def)
  show ?thesis
    unfolding generate_wifi_qr_def generate_qr_defaults_def generate_qr_def
    by (simp add: c io_defs Let_def raster_calls_def)
qed

end
